theory Spec2Isabelle
  imports Main "HOL-Library.Sublist" "HOL-Library.Char_ord" "HOL-Library.List_Lexorder"
begin

section \<open>The build-output analyser \<open>scripts/analyze-build-output.mjs\<close>\<close>

text \<open>
  The script reads a directory tree, finds the \<open>.func\<close> directories in it and prints one
  report block per directory. The model below follows the script function by function.
  Strings are byte strings (\<open>char list\<close>), file sizes and counts are natural numbers
  (the script's numbers are doubles, exact on integers below \<open>2 ^ 53\<close>), and the
  path separator is the POSIX one.
\<close>

subsection \<open>The file system the script reads\<close>

text \<open>
  What \<open>JSON.parse(fs.readFileSync(p, 'utf-8'))\<close> yields for a file: a syntax error, or
  an object whose \<open>handler\<close> and \<open>runtime\<close> fields are strings or are missing
  (\<open>undefined\<close>). Descriptors whose fields have other JSON types are outside the model.
\<close>

datatype content = Unparseable | Config "string option" "string option"

text \<open>
  A directory entry as the script observes it:
  \<^item> \<open>File n c\<close>: not a directory, \<open>statSync\<close> gives size \<open>n\<close>, reading and parsing gives \<open>c\<close>;
  \<^item> \<open>Dangling\<close>: not a directory, \<open>existsSync\<close> is false and \<open>statSync\<close> throws
    (a broken symbolic link);
  \<^item> \<open>Dir es\<close>: a directory, \<open>readdirSync\<close> gives the entries \<open>es\<close> in that order;
  \<^item> \<open>BadDir\<close>: a directory on which \<open>readdirSync\<close> throws and in which nothing is
    found to exist.
\<close>

datatype fsnode =
    File nat content
  | Dangling
  | Dir "(string \<times> fsnode) list"
  | BadDir

datatype error = ENOENT | ENOTDIR | EACCES | EISDIR | SyntaxError | TypeError

text \<open>How the process ends: normally or by \<open>process.exit(0)\<close>, or by an uncaught exception.\<close>

datatype outcome = Exit0 | Uncaught error

fun isDirectory :: "fsnode \<Rightarrow> bool" where
  "isDirectory (Dir es) = True"
| "isDirectory BadDir = True"
| "isDirectory (File n c) = False"
| "isDirectory Dangling = False"

fun existsSync :: "fsnode option \<Rightarrow> bool" where
  "existsSync None = False"
| "existsSync (Some Dangling) = False"
| "existsSync (Some n) = True"

text \<open>
  The script calls \<open>statSync\<close> on entries that are not directories. For a directory
  the model gives the size of a directory of one block; nothing below depends on it.
\<close>

fun statSync :: "fsnode \<Rightarrow> error + nat" where
  "statSync (File n c) = Inr n"
| "statSync Dangling = Inl ENOENT"
| "statSync (Dir es) = Inr 4096"
| "statSync BadDir = Inr 4096"

text \<open>\<open>path.join(funcDir, name)\<close> followed by a look at the file system.\<close>

fun lookup_entry :: "fsnode \<Rightarrow> string \<Rightarrow> fsnode option" where
  "lookup_entry (Dir es) name = map_of es name"
| "lookup_entry n name = None"

fun readFileSync :: "fsnode \<Rightarrow> error + content" where
  "readFileSync (File n c) = Inr c"
| "readFileSync Dangling = Inl ENOENT"
| "readFileSync (Dir es) = Inl EISDIR"
| "readFileSync BadDir = Inl EISDIR"

subsection \<open>Strings\<close>

definition sep :: char where
  "sep = CHR ''/''"

text \<open>\<open>s.startsWith(p)\<close>, \<open>s.endsWith(p)\<close> and \<open>s.includes(p)\<close>.\<close>

definition startsWith :: "string \<Rightarrow> string \<Rightarrow> bool" where
  "startsWith s p = (take (length p) s = p)"

definition endsWith :: "string \<Rightarrow> string \<Rightarrow> bool" where
  "endsWith s p = (length p \<le> length s \<and> drop (length s - length p) s = p)"

fun includes_str :: "string \<Rightarrow> string \<Rightarrow> bool" where
  "includes_str [] p = (p = [])"
| "includes_str (c # cs) p = (startsWith (c # cs) p \<or> includes_str cs p)"

text \<open>\<open>s.toLowerCase()\<close> on bytes: the letters A to Z change, everything else stays.\<close>

definition toLowerCase_char :: "char \<Rightarrow> char" where
  "toLowerCase_char c =
     (case map_of (zip ''ABCDEFGHIJKLMNOPQRSTUVWXYZ'' ''abcdefghijklmnopqrstuvwxyz'') c of
        Some l \<Rightarrow> l
      | None \<Rightarrow> c)"

definition toLowerCase :: "string \<Rightarrow> string" where
  "toLowerCase s = map toLowerCase_char s"

text \<open>\<open>s.split(c)\<close>: never the empty array, \<open>''''.split(c)\<close> is \<open>['''']\<close>.\<close>

fun split :: "char \<Rightarrow> string \<Rightarrow> string list" where
  "split c [] = [[]]"
| "split c (x # xs) =
     (if x = c then [] # split c xs
      else (case split c xs of
              [] \<Rightarrow> [[x]]
            | w # ws \<Rightarrow> (x # w) # ws))"

text \<open>Joining path segments with the separator, as \<open>path.join\<close> and \<open>path.relative\<close> do.\<close>

fun join_path :: "string list \<Rightarrow> string" where
  "join_path [] = []"
| "join_path [s] = s"
| "join_path (s # t # ss) = s @ sep # join_path (t # ss)"

text \<open>The decimal digits of a number, as a template literal prints an integer.\<close>

definition digit_char :: "nat \<Rightarrow> char" where
  "digit_char d = ''0123456789'' ! (d mod 10)"

fun show_nat :: "nat \<Rightarrow> string" where
  "show_nat n = (if n < 10 then [digit_char n] else show_nat (n div 10) @ [digit_char n])"

declare show_nat.simps [simp del]

subsection \<open>\<open>formatSize\<close>\<close>

text \<open>
  \<open>(bytes / d).toFixed(1)\<close> for \<open>d\<close> a power of two: the quotient is exact in a double,
  and \<open>toFixed(1)\<close> takes the integer \<open>n\<close> with \<open>n / 10\<close> nearest to it, the larger one on
  a tie, and prints \<open>n\<close> with a point before its last digit.
\<close>

definition toFixed1 :: "nat \<Rightarrow> nat \<Rightarrow> string" where
  "toFixed1 bytes d =
     (let n = (10 * bytes + d div 2) div d
      in show_nat (n div 10) @ ''.'' @ show_nat (n mod 10))"

definition formatSize :: "nat \<Rightarrow> string" where
  "formatSize bytes =
     (if bytes \<ge> 1024 * 1024 then toFixed1 bytes (1024 * 1024) @ '' MB''
      else if bytes \<ge> 1024 then toFixed1 bytes 1024 @ '' KB''
      else show_nat bytes @ '' B'')"

subsection \<open>\<open>findFuncDirs\<close>\<close>

text \<open>
  The script returns the full path of each \<open>.func\<close> directory and reads the directory
  again from that path later. The model returns the path (the segments below the output
  root) with the directory found there. An exception of \<open>readdirSync\<close> leaves the
  function at once.
\<close>

fun findFuncDirs :: "string list \<Rightarrow> fsnode \<Rightarrow> error + (string list \<times> fsnode) list"
  and findFuncDirs_loop ::
    "string list \<Rightarrow> (string \<times> fsnode) list \<Rightarrow> error + (string list \<times> fsnode) list"
where
  "findFuncDirs dir (Dir es) = findFuncDirs_loop dir es"
| "findFuncDirs dir BadDir = Inl EACCES"
| "findFuncDirs dir (File n c) = Inl ENOTDIR"
| "findFuncDirs dir Dangling = Inl ENOENT"
| "findFuncDirs_loop dir [] = Inr []"
| "findFuncDirs_loop dir ((name, entry) # es) =
     (if isDirectory entry then
        if endsWith name ''.func'' then
          (case findFuncDirs_loop dir es of
             Inl e \<Rightarrow> Inl e
           | Inr results \<Rightarrow> Inr ((dir @ [name], entry) # results))
        else
          (case findFuncDirs (dir @ [name]) entry of
             Inl e \<Rightarrow> Inl e
           | Inr sub \<Rightarrow>
               (case findFuncDirs_loop dir es of
                  Inl e \<Rightarrow> Inl e
                | Inr results \<Rightarrow> Inr (sub @ results)))
      else findFuncDirs_loop dir es)"

subsection \<open>\<open>walkFiles\<close>\<close>

record file_entry =
  path :: string
  size_f :: nat

text \<open>
  \<open>rel\<close> holds the segments of \<open>dir\<close> below \<open>base\<close>, so that
  \<open>path.relative(base, full)\<close> is \<open>rel\<close> and the entry's name, joined.
\<close>

fun walkFiles :: "string list \<Rightarrow> fsnode \<Rightarrow> error + file_entry list"
  and walkFiles_loop :: "string list \<Rightarrow> (string \<times> fsnode) list \<Rightarrow> error + file_entry list"
where
  "walkFiles rel (Dir es) = walkFiles_loop rel es"
| "walkFiles rel BadDir = Inl EACCES"
| "walkFiles rel (File n c) = Inl ENOTDIR"
| "walkFiles rel Dangling = Inl ENOENT"
| "walkFiles_loop rel [] = Inr []"
| "walkFiles_loop rel ((name, entry) # es) =
     (case (if isDirectory entry then walkFiles (rel @ [name]) entry
            else (case statSync entry of
                    Inl e \<Rightarrow> Inl e
                  | Inr n \<Rightarrow> Inr [\<lparr>path = join_path (rel @ [name]), size_f = n\<rparr>])) of
        Inl e \<Rightarrow> Inl e
      | Inr here \<Rightarrow>
          (case walkFiles_loop rel es of
             Inl e \<Rightarrow> Inl e
           | Inr results \<Rightarrow> Inr (here @ results)))"

subsection \<open>Grouping by top-level directory\<close>

record group_info =
  count :: nat
  size_g :: nat

text \<open>
  \<open>groups\<close> is a plain object \<open>{}\<close>: its own properties, in the order of their creation,
  and behind them the properties every object inherits from \<open>Object.prototype\<close>.
\<close>

type_synonym groups = "(string \<times> group_info) list"

definition object_prototype_keys :: "string list" where
  "object_prototype_keys =
     [''constructor'', ''__defineGetter__'', ''__defineSetter__'', ''hasOwnProperty'',
      ''__lookupGetter__'', ''__lookupSetter__'', ''isPrototypeOf'', ''propertyIsEnumerable'',
      ''toString'', ''valueOf'', ''__proto__'', ''toLocaleString'']"

text \<open>
  What \<open>groups[key]\<close> reads: an own property, else an inherited one (a function or
  \<open>Object.prototype\<close> itself, truthy in both cases), else \<open>undefined\<close>.
\<close>

datatype property = Own group_info | Inherited | Undefined

definition get_property :: "groups \<Rightarrow> string \<Rightarrow> property" where
  "get_property groups key =
     (case map_of groups key of
        Some g \<Rightarrow> Own g
      | None \<Rightarrow> if key \<in> set object_prototype_keys then Inherited else Undefined)"

text \<open>\<open>groups[key] = g\<close>: an own property keeps its place, a new one goes last.\<close>

fun set_property :: "groups \<Rightarrow> string \<Rightarrow> group_info \<Rightarrow> groups" where
  "set_property [] key g = [(key, g)]"
| "set_property ((k, v) # gs) key g =
     (if k = key then (key, g) # gs else (k, v) # set_property gs key g)"

text \<open>\<open>f.path.split(path.sep)[0] || '(root)'\<close>: the empty string is the falsy one.\<close>

definition topDir :: "file_entry \<Rightarrow> string" where
  "topDir f =
     (case split sep (path f) of
        [] \<Rightarrow> ''(root)''
      | s # ss \<Rightarrow> if s = [] then ''(root)'' else s)"

text \<open>
  One round of the grouping loop. On an inherited property the two updates write
  \<open>count\<close> and \<open>size\<close> on the inherited object, and \<open>groups\<close> gets no property of
  its own.
\<close>

definition group_file :: "groups \<Rightarrow> file_entry \<Rightarrow> groups" where
  "group_file groups f =
     (let key = topDir f;
          groups1 = (case get_property groups key of
                       Undefined \<Rightarrow> set_property groups key \<lparr>count = 0, size_g = 0\<rparr>
                     | Own g \<Rightarrow> groups
                     | Inherited \<Rightarrow> groups)
      in case get_property groups1 key of
           Own g \<Rightarrow>
             set_property groups1 key \<lparr>count = count g + 1, size_g = size_g g + size_f f\<rparr>
         | Inherited \<Rightarrow> groups1
         | Undefined \<Rightarrow> groups1)"

definition group_files :: "file_entry list \<Rightarrow> groups" where
  "group_files files = foldl group_file [] files"

text \<open>
  \<open>Object.entries\<close>: the keys that are array indices first, in ascending numeric order,
  then the other keys in the order of their creation.
\<close>

definition is_digit :: "char \<Rightarrow> bool" where
  "is_digit c = (c \<in> set ''0123456789'')"

definition digit_val :: "char \<Rightarrow> nat" where
  "digit_val c = (case map_of (zip ''0123456789'' [0 ..< 10]) c of Some d \<Rightarrow> d | None \<Rightarrow> 0)"

definition read_nat :: "string \<Rightarrow> nat" where
  "read_nat s = foldl (\<lambda>n c. 10 * n + digit_val c) 0 s"

definition array_index :: "string \<Rightarrow> nat option" where
  "array_index s =
     (if s \<noteq> [] \<and> list_all is_digit s \<and> (s = ''0'' \<or> hd s \<noteq> CHR ''0'')
         \<and> read_nat s \<le> 4294967294
      then Some (read_nat s) else None)"

definition object_entries :: "groups \<Rightarrow> (string \<times> group_info) list" where
  "object_entries groups =
     sort_key (\<lambda>e. the (array_index (fst e))) [e \<leftarrow> groups. array_index (fst e) \<noteq> None]
     @ [e \<leftarrow> groups. array_index (fst e) = None]"

text \<open>
  \<open>entries.sort((a, b) => b[1].size - a[1].size)\<close>: a stable sort, larger sizes first.
\<close>

definition sorted_entries :: "groups \<Rightarrow> (string \<times> group_info) list" where
  "sorted_entries groups = sort_key (\<lambda>e. - int (size_g (snd e))) (object_entries groups)"

subsection \<open>Suspicious directories\<close>

definition systemDirPatterns :: "string list" where
  "systemDirPatterns =
     [''uv'', ''node22'', ''node20'', ''node18'', ''.vercel'', ''usr'', ''opt'', ''tmp'']"

definition suspicious :: "string list \<Rightarrow> string \<Rightarrow> bool" where
  "suspicious patterns dir = list_ex (\<lambda>p. startsWith (toLowerCase dir) p) patterns"

definition suspiciousDirs :: "(string \<times> group_info) list \<Rightarrow> (string \<times> group_info) list" where
  "suspiciousDirs sorted_groups = [e \<leftarrow> sorted_groups. suspicious systemDirPatterns (fst e)]"

subsection \<open>The report of one \<open>.func\<close> directory\<close>

text \<open>
  Each \<open>console.log\<close> call is one element of the output. The characters outside ASCII
  are written as their UTF-8 bytes.
\<close>

definition nl :: string where
  "nl = [CHR 0x0A]"

definition warning_sign :: string where
  "warning_sign = [CHR 0xE2, CHR 0x9A, CHR 0xA0]"

definition em_dash :: string where
  "em_dash = [CHR 0xE2, CHR 0x80, CHR 0x94]"

definition check_mark :: string where
  "check_mark = [CHR 0xE2, CHR 0x9C, CHR 0x93]"

text \<open>A field in a template literal: \<open>undefined\<close> prints as the word.\<close>

fun template :: "string option \<Rightarrow> string" where
  "template None = ''undefined''"
| "template (Some s) = s"

definition path0_warning :: string where
  "path0_warning =
     ''  '' @ warning_sign @ '' Handler contains \"vercel/path0\" '' @ em_dash
     @ '' common ancestor likely dropped to /''"

text \<open>
  The block that reads \<open>.vc-config.json\<close>: the lines it prints, and the exception that
  ends it, if any. \<open>vcConfig.handler.includes\<close> on a missing handler is a type error,
  raised after the two fields are printed.
\<close>

definition read_vcConfig :: "fsnode \<Rightarrow> string list \<times> error option" where
  "read_vcConfig funcDir =
     (case lookup_entry funcDir ''.vc-config.json'' of
        None \<Rightarrow> ([], None)
      | Some vcConfigPath \<Rightarrow>
          if existsSync (Some vcConfigPath) then
            (case readFileSync vcConfigPath of
               Inl e \<Rightarrow> ([], Some e)
             | Inr Unparseable \<Rightarrow> ([], Some SyntaxError)
             | Inr (Config handler runtime) \<Rightarrow>
                 (let out = [''  Handler: '' @ template handler,
                             ''  Runtime: '' @ template runtime]
                  in case handler of
                       None \<Rightarrow> (out, Some TypeError)
                     | Some h \<Rightarrow>
                         if includes_str h ''vercel/path0'' then (out @ [path0_warning], None)
                         else (out, None)))
          else ([], None))"

definition group_line :: "string \<times> group_info \<Rightarrow> string" where
  "group_line e =
     ''    '' @ fst e @ '': '' @ show_nat (count (snd e)) @ '' files, ''
     @ formatSize (size_g (snd e))"

definition totalSize :: "file_entry list \<Rightarrow> nat" where
  "totalSize files = foldl (\<lambda>sum f. sum + size_f f) 0 files"

text \<open>Everything printed for a unit after \<open>walkFiles\<close> has returned.\<close>

definition render_files :: "file_entry list \<Rightarrow> string list" where
  "render_files files =
     (let sorted = sorted_entries (group_files files);
          suspiciousDirs = suspiciousDirs sorted
      in [''  Total files: '' @ show_nat (length files),
          ''  Total size: '' @ formatSize (totalSize files),
          nl @ ''  Top-level directories:'']
         @ map group_line sorted
         @ (if length suspiciousDirs > 0 then
              [nl @ ''  '' @ warning_sign @ '' SYSTEM DIRECTORIES DETECTED IN BUNDLE:'']
              @ map group_line suspiciousDirs
              @ [nl @ ''  This confirms the NFT tracing bug '' @ em_dash
                   @ '' system files are being bundled.'',
                 ''  See: https://github.com/sveltejs/kit/issues/13764'']
            else [nl @ ''  '' @ check_mark @ '' No system directories detected in bundle.'']))"

definition unit_header :: "string list \<Rightarrow> string list" where
  "unit_header funcDir = [nl @ ''Function: '' @ join_path funcDir, replicate 50 CHR ''-'']"

text \<open>
  The body of the loop over \<open>funcDirs\<close> for one directory: what it prints, and the
  exception that leaves it, if any.
\<close>

definition report_unit :: "string list \<times> fsnode \<Rightarrow> string list \<times> error option" where
  "report_unit u =
     (case read_vcConfig (snd u) of
        (out, Some e) \<Rightarrow> (unit_header (fst u) @ out, Some e)
      | (out, None) \<Rightarrow>
          (case walkFiles [] (snd u) of
             Inl e \<Rightarrow> (unit_header (fst u) @ out, Some e)
           | Inr files \<Rightarrow> (unit_header (fst u) @ out @ render_files files, None)))"

text \<open>The loop: nothing catches an exception, so the first one ends it.\<close>

fun report_units :: "(string list \<times> fsnode) list \<Rightarrow> string list \<times> error option" where
  "report_units [] = ([], None)"
| "report_units (u # us) =
     (case report_unit u of
        (out, Some e) \<Rightarrow> (out, Some e)
      | (out, None) \<Rightarrow> (case report_units us of (out', r) \<Rightarrow> (out @ out', r)))"

subsection \<open>The whole script\<close>

definition banner :: "string list" where
  "banner =
     [nl @ replicate 40 CHR ''='',
      ''  NFT Bundle Analysis (post-build)'',
      replicate 40 CHR ''='' @ nl]"

definition footer :: string where
  "footer = nl @ replicate 40 CHR ''='' @ nl"

text \<open>
  \<open>outputDir\<close> is what lies at \<open>.vercel/output/functions\<close> below the working directory,
  if anything. The result is the output and the way the process ends.
\<close>

definition run :: "fsnode option \<Rightarrow> string list \<times> outcome" where
  "run outputDir =
     (if \<not> existsSync outputDir then
        (banner @ [''No .vercel/output/functions/ directory found. Skipping analysis.''], Exit0)
      else
        (case outputDir of
           None \<Rightarrow> (banner, Uncaught ENOENT)
         | Some root \<Rightarrow>
             (case findFuncDirs [] root of
                Inl e \<Rightarrow> (banner, Uncaught e)
              | Inr funcDirs \<Rightarrow>
                  if length funcDirs = 0 then
                    (banner @ [''No .func directories found in output.''], Exit0)
                  else
                    (case report_units funcDirs of
                       (out, Some e) \<Rightarrow> (banner @ out, Uncaught e)
                     | (out, None) \<Rightarrow> (banner @ out @ [footer], Exit0)))))"

subsection \<open>Trees on which the inventory meets a failure\<close>

text \<open>
  \<open>inaccessible t\<close>: somewhere in \<open>t\<close> there is a directory that \<open>readdirSync\<close> cannot
  list or an entry that \<open>statSync\<close> cannot read.
\<close>

fun inaccessible :: "fsnode \<Rightarrow> bool"
  and inaccessible_entries :: "(string \<times> fsnode) list \<Rightarrow> bool"
where
  "inaccessible (Dir es) = inaccessible_entries es"
| "inaccessible BadDir = True"
| "inaccessible Dangling = True"
| "inaccessible (File n c) = False"
| "inaccessible_entries [] = False"
| "inaccessible_entries ((name, entry) # es) = (inaccessible entry \<or> inaccessible_entries es)"

subsection \<open>The units of a tree, as the specification describes them\<close>

text \<open>
  \<open>unit_path t p\<close> follows the words of the specification: below the directory \<open>t\<close>, the
  path \<open>p\<close> leads through directories whose names do not end in \<open>.func\<close> to a directory
  whose name does.
\<close>

inductive unit_path :: "fsnode \<Rightarrow> string list \<Rightarrow> bool" where
  unit_here:
    "(name, entry) \<in> set es \<Longrightarrow> isDirectory entry \<Longrightarrow> endsWith name ''.func''
     \<Longrightarrow> unit_path (Dir es) [name]"
| unit_below:
    "(name, entry) \<in> set es \<Longrightarrow> \<not> endsWith name ''.func'' \<Longrightarrow> unit_path entry p
     \<Longrightarrow> unit_path (Dir es) (name # p)"

subsection \<open>Trees on which the locator can list what it descends into\<close>

text \<open>
  \<open>locatable t\<close>: \<open>t\<close> is a directory that \<open>readdirSync\<close> can list, and so is every
  directory below it that is reached through directories not named \<open>*.func\<close> and is not
  named so itself.
\<close>

fun locatable :: "fsnode \<Rightarrow> bool"
  and locatable_entries :: "(string \<times> fsnode) list \<Rightarrow> bool"
where
  "locatable (Dir es) = locatable_entries es"
| "locatable BadDir = False"
| "locatable Dangling = False"
| "locatable (File n c) = False"
| "locatable_entries [] = True"
| "locatable_entries ((name, entry) # es) =
     ((if isDirectory entry \<and> \<not> endsWith name ''.func'' then locatable entry else True)
      \<and> locatable_entries es)"

section \<open>Properties\<close>

subsection \<open>Numbers as text\<close>

lemma digit_val_digit_char: "d < 10 \<Longrightarrow> digit_val (digit_char d) = d"
proof -
  assume "d < 10"
  then have "d = 0 \<or> d = 1 \<or> d = 2 \<or> d = 3 \<or> d = 4 \<or> d = 5 \<or> d = 6 \<or> d = 7 \<or> d = 8 \<or> d = 9"
    by arith
  then show ?thesis
    by (elim disjE) (simp_all add: digit_val_def digit_char_def upt_rec)
qed

text \<open>\<open>show_nat\<close> writes the decimal numeral of its argument: reading it gives the number back.\<close>

lemma read_nat_show_nat: "read_nat (show_nat n) = n"
proof (induction n rule: show_nat.induct)
  case (1 n)
  show ?case
  proof (cases "n < 10")
    case True
    then show ?thesis
      by (subst show_nat.simps) (simp add: read_nat_def digit_val_digit_char)
  next
    case False
    have dc: "digit_char n = digit_char (n mod 10)"
      by (simp add: digit_char_def)
    from False 1 have ih: "read_nat (show_nat (n div 10)) = n div 10"
      by simp
    have "read_nat (show_nat n) = 10 * read_nat (show_nat (n div 10)) + digit_val (digit_char n)"
      using False by (subst show_nat.simps) (simp add: read_nat_def)
    also have "\<dots> = 10 * (n div 10) + n mod 10"
      by (simp add: ih dc digit_val_digit_char)
    finally show ?thesis by simp
  qed
qed

text \<open>
  The tenths \<open>n\<close> that \<open>toFixed1\<close> prints are the nearest to the quotient: \<open>n / 10\<close> differs
  from \<open>bytes / d\<close> by at most one twentieth.
\<close>

lemma toFixed1_nearest:
  assumes "0 < d" "even d"
  shows "\<exists>n. toFixed1 bytes d = show_nat (n div 10) @ ''.'' @ show_nat (n mod 10)
           \<and> d * n \<le> 10 * bytes + d div 2 \<and> 10 * bytes < d * n + d div 2"
proof -
  define n where "n = (10 * bytes + d div 2) div d"
  have a: "d * n \<le> 10 * bytes + d div 2"
    unfolding n_def by simp
  have "10 * bytes + d div 2 < d * n + d"
    unfolding n_def using assms(1) by (metis add.commute dividend_less_times_div mult.commute)
  moreover have "d div 2 + d div 2 = d"
    using assms(2) by auto
  ultimately have b: "10 * bytes < d * n + d div 2"
    by linarith
  show ?thesis
    using a b by (intro exI[of _ n]) (simp add: toFixed1_def n_def Let_def)
qed

subsection \<open>The size formatter\<close>

text \<open>
  C8. \<open>formatSize\<close> prints a count below 1024 as the number and \<open>B\<close>; a count from 1024
  and below 1048576 in kibibytes with one decimal, \<open>KB\<close>; a count from 1048576 in
  mebibytes with one decimal, \<open>MB\<close>. The decimal is the tenth nearest to the quotient.
  512 gives \<open>512 B\<close>, 2048 gives \<open>2.0 KB\<close> and 5242880 gives \<open>5.0 MB\<close>.
\<close>

theorem formatSize_thresholds:
  "(bytes < 1024 \<longrightarrow> formatSize bytes = show_nat bytes @ '' B'')
   \<and> (1024 \<le> bytes \<and> bytes < 1048576 \<longrightarrow>
        (\<exists>n. formatSize bytes = show_nat (n div 10) @ ''.'' @ show_nat (n mod 10) @ '' KB''
             \<and> 1024 * n \<le> 10 * bytes + 512 \<and> 10 * bytes < 1024 * n + 512))
   \<and> (1048576 \<le> bytes \<longrightarrow>
        (\<exists>n. formatSize bytes = show_nat (n div 10) @ ''.'' @ show_nat (n mod 10) @ '' MB''
             \<and> 1048576 * n \<le> 10 * bytes + 524288 \<and> 10 * bytes < 1048576 * n + 524288))
   \<and> formatSize 512 = ''512 B''
   \<and> formatSize 2048 = ''2.0 KB''
   \<and> formatSize 5242880 = ''5.0 MB''"
proof (intro conjI impI)
  assume "bytes < 1024"
  then show "formatSize bytes = show_nat bytes @ '' B''"
    by (simp add: formatSize_def)
next
  assume h: "1024 \<le> bytes \<and> bytes < 1048576"
  from toFixed1_nearest[of 1024 bytes] obtain n where
    "toFixed1 bytes 1024 = show_nat (n div 10) @ ''.'' @ show_nat (n mod 10)"
    "1024 * n \<le> 10 * bytes + 512" "10 * bytes < 1024 * n + 512"
    by auto
  with h show "\<exists>n. formatSize bytes = show_nat (n div 10) @ ''.'' @ show_nat (n mod 10) @ '' KB''
             \<and> 1024 * n \<le> 10 * bytes + 512 \<and> 10 * bytes < 1024 * n + 512"
    by (intro exI[of _ n]) (simp add: formatSize_def)
next
  assume h: "1048576 \<le> bytes"
  from toFixed1_nearest[of 1048576 bytes] obtain n where
    "toFixed1 bytes 1048576 = show_nat (n div 10) @ ''.'' @ show_nat (n mod 10)"
    "1048576 * n \<le> 10 * bytes + 524288" "10 * bytes < 1048576 * n + 524288"
    by auto
  with h show "\<exists>n. formatSize bytes = show_nat (n div 10) @ ''.'' @ show_nat (n mod 10) @ '' MB''
             \<and> 1048576 * n \<le> 10 * bytes + 524288 \<and> 10 * bytes < 1048576 * n + 524288"
    by (intro exI[of _ n]) (simp add: formatSize_def)
next
  show "formatSize 512 = ''512 B''"
    by (simp add: formatSize_def show_nat.simps digit_char_def)
next
  show "formatSize 2048 = ''2.0 KB''"
    by (simp add: formatSize_def toFixed1_def show_nat.simps digit_char_def)
next
  show "formatSize 5242880 = ''5.0 MB''"
    by (simp add: formatSize_def toFixed1_def show_nat.simps digit_char_def)
qed

theorem formatSize_thresholds_witness:
  "(1024::nat) \<le> 1587 \<and> (1587::nat) < 1048576 \<and> formatSize 1587 = ''1.5 KB''
   \<and> (\<exists>n. formatSize 1587 = show_nat (n div 10) @ ''.'' @ show_nat (n mod 10) @ '' KB''
          \<and> 1024 * n \<le> 10 * 1587 + 512 \<and> 10 * 1587 < 1024 * n + 512)"
proof -
  have "formatSize 1587 = ''1.5 KB''"
    by (simp add: formatSize_def toFixed1_def show_nat.simps digit_char_def)
  then show ?thesis
    using formatSize_thresholds [of 1587] by simp
qed

subsection \<open>String tests\<close>

lemma startsWith_prefix: "startsWith s p \<longleftrightarrow> prefix p s"
  unfolding startsWith_def
  by (metis append_eq_conv_conj prefix_def take_is_prefix)

lemma includes_str_sublist: "includes_str s p \<longleftrightarrow> sublist p s"
  by (induction s) (auto simp: startsWith_prefix sublist_Cons_right)

subsection \<open>Suspicious directories\<close>

text \<open>The patterns of the script are in lower case already.\<close>

lemma toLowerCase_systemDirPatterns:
  "p \<in> set systemDirPatterns \<Longrightarrow> toLowerCase p = p"
  by (auto simp: systemDirPatterns_def toLowerCase_def toLowerCase_char_def)

text \<open>
  C2. A group is among the suspicious ones exactly when it is in the table and its key,
  compared without regard to case, starts with one of the patterns of the script.
  \<open>node22\<close> and \<open>usr\<close> are flagged, \<open>app\<close> and \<open>lib\<close> are not.
\<close>

theorem suspicious_default_patterns:
  "(suspicious systemDirPatterns dir
      \<longleftrightarrow> (\<exists>p \<in> set systemDirPatterns. prefix (toLowerCase p) (toLowerCase dir)))
   \<and> (e \<in> set (suspiciousDirs sorted_groups)
      \<longleftrightarrow> e \<in> set sorted_groups \<and> suspicious systemDirPatterns (fst e))
   \<and> suspicious systemDirPatterns ''node22''
   \<and> suspicious systemDirPatterns ''usr''
   \<and> \<not> suspicious systemDirPatterns ''app''
   \<and> \<not> suspicious systemDirPatterns ''lib''"
proof (intro conjI)
  show "suspicious systemDirPatterns dir
      \<longleftrightarrow> (\<exists>p \<in> set systemDirPatterns. prefix (toLowerCase p) (toLowerCase dir))"
    by (auto simp: suspicious_def list_ex_iff startsWith_prefix toLowerCase_systemDirPatterns)
  show "e \<in> set (suspiciousDirs sorted_groups)
      \<longleftrightarrow> e \<in> set sorted_groups \<and> suspicious systemDirPatterns (fst e)"
    by (simp add: suspiciousDirs_def)
  show "suspicious systemDirPatterns ''node22''"
    by (simp add: suspicious_def systemDirPatterns_def startsWith_def toLowerCase_def
        toLowerCase_char_def)
  show "suspicious systemDirPatterns ''usr''"
    by (simp add: suspicious_def systemDirPatterns_def startsWith_def toLowerCase_def
        toLowerCase_char_def)
  show "\<not> suspicious systemDirPatterns ''app''"
    by (simp add: suspicious_def systemDirPatterns_def startsWith_def toLowerCase_def
        toLowerCase_char_def)
  show "\<not> suspicious systemDirPatterns ''lib''"
    by (simp add: suspicious_def systemDirPatterns_def startsWith_def toLowerCase_def
        toLowerCase_char_def)
qed

theorem suspicious_default_patterns_witness:
  "suspicious systemDirPatterns ''Node22-linux''
   \<and> (\<exists>p \<in> set systemDirPatterns. prefix (toLowerCase p) (toLowerCase ''Node22-linux''))
   \<and> \<not> suspicious systemDirPatterns ''src''"
proof -
  have "suspicious systemDirPatterns ''Node22-linux''"
    by (simp add: suspicious_def systemDirPatterns_def startsWith_def toLowerCase_def
        toLowerCase_char_def)
  moreover have "\<not> suspicious systemDirPatterns ''src''"
    by (simp add: suspicious_def systemDirPatterns_def startsWith_def toLowerCase_def
        toLowerCase_char_def)
  ultimately show ?thesis
    using suspicious_default_patterns [of "''Node22-linux''"] by simp
qed

subsection \<open>The output root\<close>

text \<open>
  C7, as the claim states it, fails where the root exists and is no directory:
  \<open>existsSync\<close> is true, \<open>readdirSync\<close> throws, and the process ends with the exception.
\<close>

theorem root_not_a_directory_counterexample:
  "run (Some (File 0 Unparseable)) = (banner, Uncaught ENOTDIR)"
  by (simp add: run_def)

text \<open>
  C7, amended. If the output root does not exist, the script prints the banner and one
  line saying so, reports no unit and ends with status 0.
\<close>

theorem missing_root_exits_cleanly:
  "\<not> existsSync outputDir \<Longrightarrow>
   run outputDir
     = (banner @ [''No .vercel/output/functions/ directory found. Skipping analysis.''], Exit0)"
  by (simp add: run_def)

theorem missing_root_exits_cleanly_witness:
  "\<not> existsSync None
   \<and> run None
     = (banner @ [''No .vercel/output/functions/ directory found. Skipping analysis.''], Exit0)"
  using missing_root_exits_cleanly [of None] by simp

subsection \<open>The key of a file\<close>

lemma split_no_sep: "c \<notin> set s \<Longrightarrow> split c s = [s]"
  by (induction s) auto

lemma split_first_segment: "c \<notin> set s \<Longrightarrow> split c (s @ c # t) = s # split c t"
  by (induction s) auto

lemma join_path_Cons: "join_path (s # t # ss) = s @ sep # join_path (t # ss)"
  by simp

text \<open>
  For a file below a directory of the unit, the key is the name of that top-level
  directory, the first segment of the relative path.
\<close>

lemma topDir_nested:
  assumes "name \<noteq> []" "sep \<notin> set name"
  shows "topDir \<lparr>path = join_path (name # t # ss), size_f = n\<rparr> = name"
  using assms by (simp add: topDir_def split_first_segment)

text \<open>
  For a file at the root of the unit the relative path is the file name, which is not
  empty, so the alternative \<open>'(root)'\<close> is not taken: the key is the file name.
\<close>

lemma topDir_root_file:
  assumes "name \<noteq> []" "sep \<notin> set name"
  shows "topDir \<lparr>path = join_path [name], size_f = n\<rparr> = name"
  using assms by (simp add: topDir_def split_no_sep)

text \<open>
  C9. The claim says that a file at the root of the unit is grouped under the key
  \<open>(root)\<close> and not under its own name. In the script a unit holding the one file
  \<open>index.js\<close> gets the one group \<open>index.js\<close>.
\<close>

theorem root_file_grouped_under_own_name:
  "walkFiles [] (Dir [(''index.js'', File 3 Unparseable)])
     = Inr [\<lparr>path = ''index.js'', size_f = 3\<rparr>]
   \<and> topDir \<lparr>path = ''index.js'', size_f = 3\<rparr> = ''index.js''
   \<and> sorted_entries (group_files [\<lparr>path = ''index.js'', size_f = 3\<rparr>])
     = [(''index.js'', \<lparr>count = 1, size_g = 3\<rparr>)]"
proof (intro conjI)
  show "walkFiles [] (Dir [(''index.js'', File 3 Unparseable)])
     = Inr [\<lparr>path = ''index.js'', size_f = 3\<rparr>]"
    by simp
  show k: "topDir \<lparr>path = ''index.js'', size_f = 3\<rparr> = ''index.js''"
    by (simp add: topDir_def sep_def)
  have "group_files [\<lparr>path = ''index.js'', size_f = 3\<rparr>]
     = [(''index.js'', \<lparr>count = 1, size_g = 3\<rparr>)]"
    by (simp add: group_files_def group_file_def k get_property_def object_prototype_keys_def)
  moreover have "array_index ''index.js'' = None"
    by (simp add: array_index_def is_digit_def)
  ultimately show "sorted_entries (group_files [\<lparr>path = ''index.js'', size_f = 3\<rparr>])
     = [(''index.js'', \<lparr>count = 1, size_g = 3\<rparr>)]"
    by (simp add: sorted_entries_def object_entries_def)
qed

subsection \<open>The loop over the units\<close>

lemma findFuncDirs_Inr_exists: "findFuncDirs dir root = Inr us \<Longrightarrow> existsSync (Some root)"
  by (cases root) simp_all

text \<open>Units that report without an exception leave the loop running.\<close>

lemma report_units_append:
  "report_units pre = (out, None) \<Longrightarrow>
   report_units (pre @ us) = (case report_units us of (out', r) \<Rightarrow> (out @ out', r))"
proof (induction pre arbitrary: out)
  case Nil
  then show ?case
    by (simp split: prod.splits)
next
  case (Cons u pre)
  obtain o1 r1 where u: "report_unit u = (o1, r1)"
    by (cases "report_unit u")
  obtain o2 r2 where p: "report_units pre = (o2, r2)"
    by (cases "report_units pre")
  from Cons.prems u p have r: "r1 = None" "r2 = None" "out = o1 @ o2"
    by (auto split: option.splits)
  from Cons.IH[of o2] p r have "report_units (pre @ us)
      = (case report_units us of (out', r) \<Rightarrow> (o2 @ out', r))"
    by simp
  with u r show ?case
    by (simp split: prod.splits)
qed

text \<open>The first exception in the loop ends the run.\<close>

lemma run_first_exception:
  assumes "findFuncDirs [] root = Inr (pre @ u # us)"
    and "report_units pre = (out, None)"
    and "report_unit u = (out', Some e)"
  shows "report_units (pre @ u # us) = (out @ out', Some e)"
    and "run (Some root) = (banner @ out @ out', Uncaught e)"
proof -
  show a: "report_units (pre @ u # us) = (out @ out', Some e)"
    using report_units_append[OF assms(2), of "u # us"] assms(3) by simp
  show "run (Some root) = (banner @ out @ out', Uncaught e)"
    using a assms(1) findFuncDirs_Inr_exists[OF assms(1)] by (simp add: run_def)
qed

subsection \<open>The descriptor\<close>

text \<open>
  C3, as the claim states it, fails: \<open>JSON.parse\<close> is not inside a \<open>try\<close>. For a unit
  whose descriptor does not parse, the script prints the header of the unit and ends with
  the syntax error. No warning is printed, the totals of the unit are not, and the unit
  after it is not reported.
\<close>

theorem malformed_descriptor_counterexample:
  "run (Some (Dir [(''a.func'', Dir [(''.vc-config.json'', File 1 Unparseable)]),
                   (''b.func'', Dir [])]))
     = (banner @ unit_header [''a.func''], Uncaught SyntaxError)"
  by (simp add: run_def report_unit_def read_vcConfig_def endsWith_def)

text \<open>
  C3, amended. For every unit whose descriptor is present and does not parse, the
  report of the unit ends after its header with a syntax error. Wherever the unit stands
  in the list, after units that report without an exception, the loop over the units
  ends there and the run ends with that error: nothing of the later units is printed.
\<close>

theorem malformed_descriptor_aborts:
  assumes "lookup_entry funcDir ''.vc-config.json'' = Some (File n Unparseable)"
    and "report_units pre = (out, None)"
  shows "report_unit (name, funcDir) = (unit_header name, Some SyntaxError)
       \<and> report_units (pre @ (name, funcDir) # us) = (out @ unit_header name, Some SyntaxError)
       \<and> (findFuncDirs [] root = Inr (pre @ (name, funcDir) # us) \<longrightarrow>
            run (Some root) = (banner @ out @ unit_header name, Uncaught SyntaxError))"
proof -
  have u: "report_unit (name, funcDir) = (unit_header name, Some SyntaxError)"
    using assms(1) by (simp add: report_unit_def read_vcConfig_def)
  have "report_units (pre @ (name, funcDir) # us) = (out @ unit_header name, Some SyntaxError)"
    using report_units_append[OF assms(2), of "(name, funcDir) # us"] u by simp
  moreover have "run (Some root) = (banner @ out @ unit_header name, Uncaught SyntaxError)"
    if "findFuncDirs [] root = Inr (pre @ (name, funcDir) # us)"
    using run_first_exception(2)[OF that assms(2) u] .
  ultimately show ?thesis
    using u by simp
qed

theorem malformed_descriptor_aborts_witness:
  "lookup_entry (Dir [(''.vc-config.json'', File 1 Unparseable)]) ''.vc-config.json''
     = Some (File 1 Unparseable)
   \<and> report_units [([''a.func''], Dir [(''index.js'', File 9 Unparseable)])]
     = (unit_header [''a.func''] @ render_files [\<lparr>path = ''index.js'', size_f = 9\<rparr>], None)
   \<and> findFuncDirs []
        (Dir [(''a.func'', Dir [(''index.js'', File 9 Unparseable)]),
              (''b.func'', Dir [(''.vc-config.json'', File 1 Unparseable)]),
              (''c.func'', Dir [])])
     = Inr [([''a.func''], Dir [(''index.js'', File 9 Unparseable)]),
            ([''b.func''], Dir [(''.vc-config.json'', File 1 Unparseable)]),
            ([''c.func''], Dir [])]
   \<and> run (Some
        (Dir [(''a.func'', Dir [(''index.js'', File 9 Unparseable)]),
              (''b.func'', Dir [(''.vc-config.json'', File 1 Unparseable)]),
              (''c.func'', Dir [])]))
     = (banner @ (unit_header [''a.func''] @ render_files [\<lparr>path = ''index.js'', size_f = 9\<rparr>])
          @ unit_header [''b.func''],
        Uncaught SyntaxError)"
proof -
  have l: "lookup_entry (Dir [(''.vc-config.json'', File 1 Unparseable)]) ''.vc-config.json''
     = Some (File 1 Unparseable)"
    by simp
  have p: "report_units [([''a.func''], Dir [(''index.js'', File 9 Unparseable)])]
     = (unit_header [''a.func''] @ render_files [\<lparr>path = ''index.js'', size_f = 9\<rparr>], None)"
    by (simp add: report_unit_def read_vcConfig_def)
  have f: "findFuncDirs []
        (Dir [(''a.func'', Dir [(''index.js'', File 9 Unparseable)]),
              (''b.func'', Dir [(''.vc-config.json'', File 1 Unparseable)]),
              (''c.func'', Dir [])])
     = Inr ([([''a.func''], Dir [(''index.js'', File 9 Unparseable)])]
            @ ([''b.func''], Dir [(''.vc-config.json'', File 1 Unparseable)])
            # [([''c.func''], Dir [])])"
    by (simp add: endsWith_def)
  from malformed_descriptor_aborts [OF l p, of "[''b.func'']" "[([''c.func''], Dir [])]"
      "Dir [(''a.func'', Dir [(''index.js'', File 9 Unparseable)]),
            (''b.func'', Dir [(''.vc-config.json'', File 1 Unparseable)]),
            (''c.func'', Dir [])]"] f
  have "run (Some
        (Dir [(''a.func'', Dir [(''index.js'', File 9 Unparseable)]),
              (''b.func'', Dir [(''.vc-config.json'', File 1 Unparseable)]),
              (''c.func'', Dir [])]))
     = (banner @ (unit_header [''a.func''] @ render_files [\<lparr>path = ''index.js'', size_f = 9\<rparr>])
          @ unit_header [''b.func''],
        Uncaught SyntaxError)"
    by blast
  with l p f show ?thesis
    by simp
qed

text \<open>No line printed after the inventory is the warning about the handler path.\<close>

lemma render_files_no_path0_warning: "path0_warning \<notin> set (render_files files)"
proof -
  have "take 3 l \<noteq> take 3 path0_warning" if "l \<in> set (render_files files)" for l
    using that
    by (auto simp: render_files_def Let_def path0_warning_def warning_sign_def nl_def
        group_line_def check_mark_def split: if_splits)
  then show ?thesis by blast
qed

text \<open>
  C10. If the descriptor of a unit is present and parses and its handler contains
  \<open>vercel/path0\<close>, the report of the unit has the warning about the handler path. The
  descriptor block prints it, whatever the unit holds besides; no line of the directory
  table or of the section on suspicious directories is this warning.
\<close>

theorem path0_warning_reported:
  assumes "lookup_entry funcDir ''.vc-config.json'' = Some (File n (Config (Some handler) runtime))"
    and "includes_str handler ''vercel/path0''"
  shows "read_vcConfig funcDir
           = ([''  Handler: '' @ handler, ''  Runtime: '' @ template runtime, path0_warning], None)
       \<and> path0_warning \<in> set (fst (report_unit (name, funcDir)))
       \<and> path0_warning \<notin> set (render_files files)"
proof -
  have v: "read_vcConfig funcDir
           = ([''  Handler: '' @ handler, ''  Runtime: '' @ template runtime, path0_warning], None)"
    using assms by (simp add: read_vcConfig_def)
  then have "path0_warning \<in> set (fst (report_unit (name, funcDir)))"
    by (simp add: report_unit_def split: sum.splits)
  with v show ?thesis
    by (simp add: render_files_no_path0_warning)
qed

theorem path0_warning_reported_witness:
  "lookup_entry
      (Dir [(''.vc-config.json'', File 9 (Config (Some ''vercel/path0/index.js'') (Some ''nodejs22.x''))),
            (''src'', Dir [(''a.js'', File 5 Unparseable)])])
      ''.vc-config.json''
     = Some (File 9 (Config (Some ''vercel/path0/index.js'') (Some ''nodejs22.x'')))
   \<and> includes_str ''vercel/path0/index.js'' ''vercel/path0''
   \<and> path0_warning \<in> set (fst (report_unit ([''a.func''],
        Dir [(''.vc-config.json'', File 9 (Config (Some ''vercel/path0/index.js'') (Some ''nodejs22.x''))),
             (''src'', Dir [(''a.js'', File 5 Unparseable)])])))"
proof -
  have i: "includes_str ''vercel/path0/index.js'' ''vercel/path0''"
    by (simp add: startsWith_def)
  show ?thesis
    using i path0_warning_reported
      [where funcDir = "Dir [(''.vc-config.json'',
                              File 9 (Config (Some ''vercel/path0/index.js'') (Some ''nodejs22.x''))),
                             (''src'', Dir [(''a.js'', File 5 Unparseable)])]"
         and n = 9 and handler = "''vercel/path0/index.js''" and runtime = "Some ''nodejs22.x''"
         and name = "[''a.func'']"]
    by simp
qed

subsection \<open>Failures during the inventory\<close>

lemma statSync_inaccessible:
  "\<not> isDirectory entry \<Longrightarrow> inaccessible entry \<longleftrightarrow> (\<exists>e. statSync entry = Inl e)"
  by (cases entry) simp_all

lemma walkFiles_inaccessible:
  "inaccessible t \<Longrightarrow> \<exists>e. walkFiles rel t = Inl e"
  "inaccessible_entries es \<Longrightarrow> \<exists>e. walkFiles_loop rel es = Inl e"
proof (induction rel t and rel es rule: walkFiles_walkFiles_loop.induct)
  case (6 rel name entry es)
  show ?case
  proof (cases "isDirectory entry")
    case True
    with 6 show ?thesis
      by (auto split: sum.splits)
  next
    case False
    with 6 statSync_inaccessible[OF False] show ?thesis
      by (auto split: sum.splits)
  qed
qed simp_all

lemma walkFiles_accessible:
  "\<not> inaccessible t \<Longrightarrow> isDirectory t \<Longrightarrow> \<exists>files. walkFiles rel t = Inr files"
  "\<not> inaccessible_entries es \<Longrightarrow> \<exists>files. walkFiles_loop rel es = Inr files"
proof (induction rel t and rel es rule: walkFiles_walkFiles_loop.induct)
  case (6 rel name entry es)
  show ?case
  proof (cases "isDirectory entry")
    case True
    with 6 show ?thesis
      by (auto split: sum.splits)
  next
    case False
    with 6 statSync_inaccessible[OF False] show ?thesis
      by (auto split: sum.splits)
  qed
qed simp_all

text \<open>
  C4, as the claim states it, fails: neither \<open>readdirSync\<close> nor \<open>statSync\<close> is inside a
  \<open>try\<close>. A unit with one readable file and one directory that cannot be listed gets no
  totals and no warning, the run ends with the error, and the unit after it is not
  reported.
\<close>

theorem inventory_failure_counterexample:
  "run (Some (Dir [(''a.func'', Dir [(''index.js'', File 7 Unparseable), (''locked'', BadDir)]),
                   (''b.func'', Dir [(''index.js'', File 7 Unparseable)])]))
     = (banner @ unit_header [''a.func''], Uncaught EACCES)"
  by (simp add: run_def report_unit_def read_vcConfig_def endsWith_def)

text \<open>
  C4, amended. A failure of the file system anywhere in the inventory of a unit is not
  recovered: \<open>walkFiles\<close> ends with the error, and the report of the unit ends with it
  after the descriptor lines and before the totals. Wherever the unit stands in the
  list, after units that report without an exception, the loop over the units ends there
  and the run ends with that error: nothing of the later units is printed.
\<close>

theorem inventory_failure_aborts:
  assumes "inaccessible funcDir"
    and "read_vcConfig funcDir = (out, None)"
    and "report_units pre = (out0, None)"
  shows "\<exists>e. walkFiles [] funcDir = Inl e
       \<and> report_unit (name, funcDir) = (unit_header name @ out, Some e)
       \<and> report_units (pre @ (name, funcDir) # us) = (out0 @ unit_header name @ out, Some e)
       \<and> (findFuncDirs [] root = Inr (pre @ (name, funcDir) # us) \<longrightarrow>
            run (Some root) = (banner @ out0 @ unit_header name @ out, Uncaught e))"
proof -
  from assms(1) obtain e where w: "walkFiles [] funcDir = Inl e"
    using walkFiles_inaccessible(1) by blast
  have u: "report_unit (name, funcDir) = (unit_header name @ out, Some e)"
    using w assms(2) by (simp add: report_unit_def)
  have "report_units (pre @ (name, funcDir) # us) = (out0 @ unit_header name @ out, Some e)"
    using report_units_append[OF assms(3), of "(name, funcDir) # us"] u by simp
  moreover have "run (Some root) = (banner @ out0 @ unit_header name @ out, Uncaught e)"
    if "findFuncDirs [] root = Inr (pre @ (name, funcDir) # us)"
    using run_first_exception(2)[OF that assms(3) u] .
  ultimately show ?thesis
    using w u by (intro exI[of _ e]) simp
qed

theorem inventory_failure_aborts_witness:
  "inaccessible (Dir [(''index.js'', File 7 Unparseable), (''locked'', BadDir)])
   \<and> read_vcConfig (Dir [(''index.js'', File 7 Unparseable), (''locked'', BadDir)]) = ([], None)
   \<and> report_units [([''a.func''], Dir [(''index.js'', File 9 Unparseable)])]
     = (unit_header [''a.func''] @ render_files [\<lparr>path = ''index.js'', size_f = 9\<rparr>], None)
   \<and> findFuncDirs []
        (Dir [(''a.func'', Dir [(''index.js'', File 9 Unparseable)]),
              (''b.func'', Dir [(''index.js'', File 7 Unparseable), (''locked'', BadDir)]),
              (''c.func'', Dir [])])
     = Inr [([''a.func''], Dir [(''index.js'', File 9 Unparseable)]),
            ([''b.func''], Dir [(''index.js'', File 7 Unparseable), (''locked'', BadDir)]),
            ([''c.func''], Dir [])]
   \<and> (\<exists>e. walkFiles [] (Dir [(''index.js'', File 7 Unparseable), (''locked'', BadDir)]) = Inl e
        \<and> run (Some
             (Dir [(''a.func'', Dir [(''index.js'', File 9 Unparseable)]),
                   (''b.func'', Dir [(''index.js'', File 7 Unparseable), (''locked'', BadDir)]),
                   (''c.func'', Dir [])]))
          = (banner
               @ (unit_header [''a.func''] @ render_files [\<lparr>path = ''index.js'', size_f = 9\<rparr>])
               @ unit_header [''b.func''] @ [],
             Uncaught e))"
proof -
  have i: "inaccessible (Dir [(''index.js'', File 7 Unparseable), (''locked'', BadDir)])"
    by simp
  have v: "read_vcConfig (Dir [(''index.js'', File 7 Unparseable), (''locked'', BadDir)]) = ([], None)"
    by (simp add: read_vcConfig_def)
  have p: "report_units [([''a.func''], Dir [(''index.js'', File 9 Unparseable)])]
     = (unit_header [''a.func''] @ render_files [\<lparr>path = ''index.js'', size_f = 9\<rparr>], None)"
    by (simp add: report_unit_def read_vcConfig_def)
  have f: "findFuncDirs []
        (Dir [(''a.func'', Dir [(''index.js'', File 9 Unparseable)]),
              (''b.func'', Dir [(''index.js'', File 7 Unparseable), (''locked'', BadDir)]),
              (''c.func'', Dir [])])
     = Inr ([([''a.func''], Dir [(''index.js'', File 9 Unparseable)])]
            @ ([''b.func''], Dir [(''index.js'', File 7 Unparseable), (''locked'', BadDir)])
            # [([''c.func''], Dir [])])"
    by (simp add: endsWith_def)
  from inventory_failure_aborts [OF i v p, of "[''b.func'']" "[([''c.func''], Dir [])]"
      "Dir [(''a.func'', Dir [(''index.js'', File 9 Unparseable)]),
            (''b.func'', Dir [(''index.js'', File 7 Unparseable), (''locked'', BadDir)]),
            (''c.func'', Dir [])]"] f
  obtain e where
    "walkFiles [] (Dir [(''index.js'', File 7 Unparseable), (''locked'', BadDir)]) = Inl e"
    "run (Some
             (Dir [(''a.func'', Dir [(''index.js'', File 9 Unparseable)]),
                   (''b.func'', Dir [(''index.js'', File 7 Unparseable), (''locked'', BadDir)]),
                   (''c.func'', Dir [])]))
          = (banner
               @ (unit_header [''a.func''] @ render_files [\<lparr>path = ''index.js'', size_f = 9\<rparr>])
               @ unit_header [''b.func''] @ [],
             Uncaught e)"
    by blast
  with i v p f show ?thesis
    by simp
qed

subsection \<open>Grouping\<close>

lemma set_property_sum_new:
  "map_of gs key = None \<Longrightarrow>
   sum_list (map (\<lambda>e. h (snd e)) (set_property gs key g)) = sum_list (map (\<lambda>e. h (snd e)) gs) + h g"
  for h :: "group_info \<Rightarrow> nat"
  by (induction gs) (auto split: if_splits)

lemma set_property_sum_own:
  "map_of gs key = Some g0 \<Longrightarrow>
   sum_list (map (\<lambda>e. h (snd e)) (set_property gs key g)) + h g0
     = sum_list (map (\<lambda>e. h (snd e)) gs) + h g"
  for h :: "group_info \<Rightarrow> nat"
  by (induction gs) (auto split: if_splits)

lemma map_of_set_property: "map_of (set_property gs key g) key = Some g"
  by (induction gs) auto

text \<open>One round of the loop, for a key that is no inherited property.\<close>

lemma group_file_count:
  assumes "topDir f \<notin> set object_prototype_keys"
  shows "sum_list (map (\<lambda>e. count (snd e)) (group_file gs f))
           = sum_list (map (\<lambda>e. count (snd e)) gs) + 1"
proof (cases "map_of gs (topDir f)")
  case None
  then show ?thesis
    using assms set_property_sum_new[of gs "topDir f" count "\<lparr>count = 0, size_g = 0\<rparr>"]
      set_property_sum_own[of "set_property gs (topDir f) \<lparr>count = 0, size_g = 0\<rparr>" "topDir f"
        "\<lparr>count = 0, size_g = 0\<rparr>" count "\<lparr>count = 1, size_g = size_f f\<rparr>"]
    by (simp add: group_file_def Let_def get_property_def map_of_set_property)
next
  case (Some g0)
  then show ?thesis
    using set_property_sum_own[of gs "topDir f" g0 count
        "\<lparr>count = count g0 + 1, size_g = size_g g0 + size_f f\<rparr>"]
    by (simp add: group_file_def Let_def get_property_def)
qed

lemma group_file_size:
  assumes "topDir f \<notin> set object_prototype_keys"
  shows "sum_list (map (\<lambda>e. size_g (snd e)) (group_file gs f))
           = sum_list (map (\<lambda>e. size_g (snd e)) gs) + size_f f"
proof (cases "map_of gs (topDir f)")
  case None
  then show ?thesis
    using assms set_property_sum_new[of gs "topDir f" size_g "\<lparr>count = 0, size_g = 0\<rparr>"]
      set_property_sum_own[of "set_property gs (topDir f) \<lparr>count = 0, size_g = 0\<rparr>" "topDir f"
        "\<lparr>count = 0, size_g = 0\<rparr>" size_g "\<lparr>count = 1, size_g = size_f f\<rparr>"]
    by (simp add: group_file_def Let_def get_property_def map_of_set_property)
next
  case (Some g0)
  then show ?thesis
    using set_property_sum_own[of gs "topDir f" g0 size_g
        "\<lparr>count = count g0 + 1, size_g = size_g g0 + size_f f\<rparr>"]
    by (simp add: group_file_def Let_def get_property_def)
qed

lemma foldl_group_file_count:
  "\<forall>f \<in> set files. topDir f \<notin> set object_prototype_keys \<Longrightarrow>
   sum_list (map (\<lambda>e. count (snd e)) (foldl group_file gs files))
     = sum_list (map (\<lambda>e. count (snd e)) gs) + length files"
  by (induction files arbitrary: gs) (simp_all add: group_file_count)

lemma foldl_group_file_size:
  "\<forall>f \<in> set files. topDir f \<notin> set object_prototype_keys \<Longrightarrow>
   sum_list (map (\<lambda>e. size_g (snd e)) (foldl group_file gs files))
     = sum_list (map (\<lambda>e. size_g (snd e)) gs) + sum_list (map size_f files)"
  by (induction files arbitrary: gs) (simp_all add: group_file_size)

lemma totalSize_sum_list: "totalSize files = sum_list (map size_f files)"
proof -
  have "foldl (\<lambda>sum f. sum + size_f f) a files = a + sum_list (map size_f files)" for a
    by (induction files arbitrary: a) simp_all
  then show ?thesis by (simp add: totalSize_def)
qed

text \<open>Enumerating and sorting the groups keeps every group once.\<close>

lemma sum_list_insort_key:
  "sum_list (map h (insort_key k x xs)) = h x + sum_list (map h xs)"
  for h :: "'a \<Rightarrow> nat"
  by (induction xs) simp_all

lemma sum_list_sort_key: "sum_list (map h (sort_key k xs)) = sum_list (map h xs)"
  for h :: "'a \<Rightarrow> nat"
  by (induction xs) (simp_all add: sum_list_insort_key)

lemma sum_list_filter_split:
  "sum_list (map h (filter P xs)) + sum_list (map h (filter (\<lambda>x. \<not> P x) xs)) = sum_list (map h xs)"
  for h :: "'a \<Rightarrow> nat"
  by (induction xs) simp_all

lemma sum_list_sorted_entries:
  "sum_list (map h (sorted_entries gs)) = sum_list (map h gs)"
  for h :: "string \<times> group_info \<Rightarrow> nat"
  using sum_list_filter_split[of h "\<lambda>e. array_index (fst e) \<noteq> None" gs]
  by (simp add: sorted_entries_def object_entries_def sum_list_sort_key)

text \<open>
  Where no file of the unit lies below a top-level name that a plain object inherits,
  the table keeps every file: the counts add up to the number of files and the sizes to
  the total size.
\<close>

lemma grouping_lossless_without_inherited_keys:
  assumes "\<forall>f \<in> set files. topDir f \<notin> set object_prototype_keys"
  shows "sum_list (map (\<lambda>e. count (snd e)) (sorted_entries (group_files files))) = length files"
    and "sum_list (map (\<lambda>e. size_g (snd e)) (sorted_entries (group_files files))) = totalSize files"
  using assms
  by (simp_all add: sum_list_sorted_entries group_files_def foldl_group_file_count
      foldl_group_file_size totalSize_sum_list)

text \<open>
  C1. The claim says that the counts of the groups add up to the number of files of the
  unit and their sizes to its total size. In the script \<open>groups\<close> is a plain object, and
  \<open>groups['constructor']\<close> is the inherited constructor: no group is made for a file below
  a directory of that name, and the file is in the totals and in no row of the table.
\<close>

theorem grouping_drops_inherited_key:
  "walkFiles [] (Dir [(''constructor'', Dir [(''index.js'', File 10 Unparseable)]),
                      (''src'', Dir [(''a.js'', File 5 Unparseable)])])
     = Inr [\<lparr>path = ''constructor/index.js'', size_f = 10\<rparr>, \<lparr>path = ''src/a.js'', size_f = 5\<rparr>]
   \<and> length [\<lparr>path = ''constructor/index.js'', size_f = 10\<rparr>, \<lparr>path = ''src/a.js'', size_f = 5\<rparr>] = 2
   \<and> totalSize [\<lparr>path = ''constructor/index.js'', size_f = 10\<rparr>, \<lparr>path = ''src/a.js'', size_f = 5\<rparr>]
     = 15
   \<and> sorted_entries
        (group_files [\<lparr>path = ''constructor/index.js'', size_f = 10\<rparr>, \<lparr>path = ''src/a.js'', size_f = 5\<rparr>])
     = [(''src'', \<lparr>count = 1, size_g = 5\<rparr>)]"
proof (intro conjI)
  show "walkFiles [] (Dir [(''constructor'', Dir [(''index.js'', File 10 Unparseable)]),
                      (''src'', Dir [(''a.js'', File 5 Unparseable)])])
     = Inr [\<lparr>path = ''constructor/index.js'', size_f = 10\<rparr>, \<lparr>path = ''src/a.js'', size_f = 5\<rparr>]"
    by (simp add: sep_def)
  show "length [\<lparr>path = ''constructor/index.js'', size_f = 10\<rparr>, \<lparr>path = ''src/a.js'', size_f = 5\<rparr>] = 2"
    by simp
  show "totalSize [\<lparr>path = ''constructor/index.js'', size_f = 10\<rparr>, \<lparr>path = ''src/a.js'', size_f = 5\<rparr>]
     = 15"
    by (simp add: totalSize_def)
  have k1: "topDir \<lparr>path = ''constructor/index.js'', size_f = 10\<rparr> = ''constructor''"
    by (simp add: topDir_def sep_def)
  have k2: "topDir \<lparr>path = ''src/a.js'', size_f = 5\<rparr> = ''src''"
    by (simp add: topDir_def sep_def)
  have "group_files [\<lparr>path = ''constructor/index.js'', size_f = 10\<rparr>, \<lparr>path = ''src/a.js'', size_f = 5\<rparr>]
     = [(''src'', \<lparr>count = 1, size_g = 5\<rparr>)]"
    by (simp add: group_files_def group_file_def k1 k2 get_property_def object_prototype_keys_def)
  moreover have "array_index ''src'' = None"
    by (simp add: array_index_def is_digit_def)
  ultimately show "sorted_entries
        (group_files [\<lparr>path = ''constructor/index.js'', size_f = 10\<rparr>, \<lparr>path = ''src/a.js'', size_f = 5\<rparr>])
     = [(''src'', \<lparr>count = 1, size_g = 5\<rparr>)]"
    by (simp add: sorted_entries_def object_entries_def)
qed

subsection \<open>The order of the table\<close>










subsection \<open>The locator\<close>

inductive_cases unit_path_DirE: "unit_path (Dir es) p"

lemma unit_path_not_Dir [simp]:
  "\<not> unit_path BadDir p" "\<not> unit_path Dangling p" "\<not> unit_path (File n c) p"
  by (subst unit_path.simps, simp)+

lemma unit_path_Cons:
  "unit_path (Dir ((name, entry) # es)) p \<longleftrightarrow>
     (p = [name] \<and> isDirectory entry \<and> endsWith name ''.func'')
     \<or> (\<exists>q. p = name # q \<and> \<not> endsWith name ''.func'' \<and> unit_path entry q)
     \<or> unit_path (Dir es) p"
  (is "?l \<longleftrightarrow> ?r")
proof
  assume ?l
  then show ?r
    by (elim unit_path_DirE) (auto intro: unit_path.intros)
next
  assume ?r
  then consider
    (a) "p = [name]" "isDirectory entry" "endsWith name ''.func''"
    | (b) q where "p = name # q" "\<not> endsWith name ''.func''" "unit_path entry q"
    | (c) "unit_path (Dir es) p"
    by blast
  then show ?l
  proof cases
    case a
    then show ?thesis
      using unit_here[of name entry "(name, entry) # es"] by simp
  next
    case b
    then show ?thesis
      using unit_below[of name entry "(name, entry) # es" q] by simp
  next
    case c
    then show ?thesis
      by (elim unit_path_DirE) (auto intro: unit_path.intros)
  qed
qed

lemma unit_path_Nil [simp]: "\<not> unit_path (Dir []) p"
  by (subst unit_path.simps) simp
text \<open>The directories found are the ones the specification describes.\<close>

lemma findFuncDirs_unit_path:
  "findFuncDirs dir t = Inr us \<Longrightarrow> fst ` set us = {dir @ p | p. unit_path t p}"
  "findFuncDirs_loop dir es = Inr us \<Longrightarrow> fst ` set us = {dir @ p | p. unit_path (Dir es) p}"
proof (induction dir t and dir es arbitrary: us and us rule: findFuncDirs_findFuncDirs_loop.induct)
  case (6 dir name entry es)
  show ?case
  proof (cases "isDirectory entry")
    case False
    then have "\<not> unit_path entry q" for q
      by (cases entry) simp_all
    with False "6.prems" "6.IH"(4) show ?thesis
      by (simp add: unit_path_Cons)
  next
    case True
    show ?thesis
    proof (cases "endsWith name ''.func''")
      case func: True
      with True "6.prems" obtain rs where
        rs: "findFuncDirs_loop dir es = Inr rs" and us: "us = (dir @ [name], entry) # rs"
        by (auto split: sum.splits)
      from "6.IH"(1)[OF True func rs] have "fst ` set rs = {dir @ p | p. unit_path (Dir es) p}" .
      with True func us show ?thesis
        by (auto simp: unit_path_Cons)
    next
      case nofunc: False
      with True "6.prems" obtain sub rs where
        sub: "findFuncDirs (dir @ [name]) entry = Inr sub"
        and rs: "findFuncDirs_loop dir es = Inr rs" and us: "us = sub @ rs"
        by (auto split: sum.splits)
      from "6.IH"(2)[OF True nofunc sub]
      have a: "fst ` set sub = {(dir @ [name]) @ p | p. unit_path entry p}" .
      from "6.IH"(3)[OF True nofunc sub rs]
      have b: "fst ` set rs = {dir @ p | p. unit_path (Dir es) p}" .
      have "fst ` set us = fst ` set sub \<union> fst ` set rs"
        using us by (simp add: image_Un)
      also have "\<dots> = {dir @ p | p. unit_path (Dir ((name, entry) # es)) p}"
        unfolding a b using True nofunc by (auto simp: unit_path_Cons)
      finally show ?thesis .
    qed
  qed
qed simp_all

lemma unit_path_shape:
  "unit_path t p \<Longrightarrow>
     p \<noteq> [] \<and> endsWith (last p) ''.func'' \<and> (\<forall>s \<in> set (butlast p). \<not> endsWith s ''.func'')"
  by (induction rule: unit_path.induct) auto

lemma unit_path_not_nested:
  assumes "unit_path t p" "unit_path t q"
  shows "\<not> strict_prefix p q"
proof
  assume "strict_prefix p q"
  then obtain r where q: "q = p @ r" and r: "r \<noteq> []"
    by (auto simp: strict_prefix_def prefix_def)
  from unit_path_shape[OF assms(1)] have p: "p \<noteq> []" "endsWith (last p) ''.func''"
    by simp_all
  from q r have "butlast q = p @ butlast r"
    by (simp add: butlast_append)
  with p(1) have "last p \<in> set (butlast q)"
    by simp
  with unit_path_shape[OF assms(2)] p(2) show False
    by blast
qed

text \<open>Every entry found is a directory.\<close>

lemma findFuncDirs_isDirectory:
  "findFuncDirs dir t = Inr us \<Longrightarrow> \<forall>u \<in> set us. isDirectory (snd u)"
  "findFuncDirs_loop dir es = Inr us \<Longrightarrow> \<forall>u \<in> set us. isDirectory (snd u)"
proof (induction dir t and dir es arbitrary: us and us rule: findFuncDirs_findFuncDirs_loop.induct)
  case (6 dir name entry es)
  show ?case
  proof (cases "isDirectory entry")
    case False
    with "6.prems" "6.IH"(4) show ?thesis
      by simp
  next
    case True
    show ?thesis
    proof (cases "endsWith name ''.func''")
      case func: True
      with True "6.prems" obtain rs where
        rs: "findFuncDirs_loop dir es = Inr rs" and us: "us = (dir @ [name], entry) # rs"
        by (auto split: sum.splits)
      from "6.IH"(1)[OF True func rs] True us show ?thesis
        by simp
    next
      case nofunc: False
      with True "6.prems" obtain sub rs where
        sub: "findFuncDirs (dir @ [name]) entry = Inr sub"
        and rs: "findFuncDirs_loop dir es = Inr rs" and us: "us = sub @ rs"
        by (auto split: sum.splits)
      from "6.IH"(2)[OF True nofunc sub] "6.IH"(3)[OF True nofunc sub rs] us show ?thesis
        by auto
    qed
  qed
qed simp_all

text \<open>
  The locator returns exactly on the trees in which it can list every directory it
  descends into; what lies inside a directory named \<open>*.func\<close> does not matter.
\<close>

lemma findFuncDirs_locatable:
  "(\<exists>us. findFuncDirs dir t = Inr us) \<longleftrightarrow> locatable t"
  "(\<exists>us. findFuncDirs_loop dir es = Inr us) \<longleftrightarrow> locatable_entries es"
proof (induction dir t and dir es rule: findFuncDirs_findFuncDirs_loop.induct)
  case (6 dir name entry es)
  show ?case
  proof (cases "isDirectory entry")
    case False
    with "6.IH"(4) show ?thesis
      by simp
  next
    case True
    show ?thesis
    proof (cases "endsWith name ''.func''")
      case func: True
      with True "6.IH"(1) show ?thesis
        by (auto split: sum.splits)
    next
      case nofunc: False
      show ?thesis
      proof (cases "findFuncDirs (dir @ [name]) entry")
        case (Inl e)
        with True nofunc "6.IH"(2) show ?thesis
          by auto
      next
        case (Inr sub)
        with True nofunc "6.IH"(2) "6.IH"(3)[OF True nofunc Inr] show ?thesis
          by (auto split: sum.splits)
      qed
    qed
  qed
qed simp_all

text \<open>
  C6. The locator returns on every tree in which it can list the directories it descends
  into, and only on those. Where it returns, the paths it returns are the paths that
  lead from the output root through directories not named \<open>*.func\<close> to a directory named
  \<open>*.func\<close>: each such directory is emitted, nothing inside one is, and every other
  directory on the way is descended into. So every unit is a directory whose name ends
  in \<open>.func\<close>, and no unit lies below another one.
\<close>

theorem findFuncDirs_units:
  "((\<exists>us. findFuncDirs dir root = Inr us) \<longleftrightarrow> locatable root)
   \<and> (findFuncDirs dir root = Inr units \<longrightarrow>
        fst ` set units = {dir @ p | p. unit_path root p}
        \<and> (\<forall>u \<in> set units. isDirectory (snd u) \<and> endsWith (last (fst u)) ''.func'')
        \<and> (\<forall>u \<in> set units. \<forall>v \<in> set units. \<not> strict_prefix (fst u) (fst v)))"
proof (intro conjI impI ballI)
  show "(\<exists>us. findFuncDirs dir root = Inr us) \<longleftrightarrow> locatable root"
    by (rule findFuncDirs_locatable(1))
next
  assume f: "findFuncDirs dir root = Inr units"
  show c: "fst ` set units = {dir @ p | p. unit_path root p}"
    using f by (rule findFuncDirs_unit_path(1))
  {
    fix u assume u: "u \<in> set units"
    show "isDirectory (snd u)"
      using findFuncDirs_isDirectory(1)[OF f] u by blast
    from u have "fst u \<in> fst ` set units"
      by simp
    with c obtain p where p: "fst u = dir @ p" "unit_path root p"
      by auto
    with unit_path_shape[OF p(2)] show "endsWith (last (fst u)) ''.func''"
      by simp
    fix v assume v: "v \<in> set units"
    from v have "fst v \<in> fst ` set units"
      by simp
    with c obtain q where q: "fst v = dir @ q" "unit_path root q"
      by auto
    from unit_path_not_nested[OF p(2) q(2)] p(1) q(1)
    show "\<not> strict_prefix (fst u) (fst v)"
      by (simp add: strict_prefix_def)
  }
qed

theorem findFuncDirs_units_witness:
  "locatable
      (Dir [(''a.func'', Dir [(''inner.func'', Dir []), (''locked'', BadDir)]),
            (''api'', Dir [(''v1'', Dir [(''x.func'', Dir [])])]),
            (''notes.func'', File 1 Unparseable)])
   \<and> findFuncDirs []
      (Dir [(''a.func'', Dir [(''inner.func'', Dir []), (''locked'', BadDir)]),
            (''api'', Dir [(''v1'', Dir [(''x.func'', Dir [])])]),
            (''notes.func'', File 1 Unparseable)])
     = Inr [([''a.func''], Dir [(''inner.func'', Dir []), (''locked'', BadDir)]),
            ([''api'', ''v1'', ''x.func''], Dir [])]
   \<and> fst ` set [([''a.func''], Dir [(''inner.func'', Dir []), (''locked'', BadDir)]),
                  ([''api'', ''v1'', ''x.func''], Dir [])]
     = {[] @ p | p. unit_path
          (Dir [(''a.func'', Dir [(''inner.func'', Dir []), (''locked'', BadDir)]),
                (''api'', Dir [(''v1'', Dir [(''x.func'', Dir [])])]),
                (''notes.func'', File 1 Unparseable)]) p}"
proof -
  have f: "findFuncDirs []
      (Dir [(''a.func'', Dir [(''inner.func'', Dir []), (''locked'', BadDir)]),
            (''api'', Dir [(''v1'', Dir [(''x.func'', Dir [])])]),
            (''notes.func'', File 1 Unparseable)])
     = Inr [([''a.func''], Dir [(''inner.func'', Dir []), (''locked'', BadDir)]),
            ([''api'', ''v1'', ''x.func''], Dir [])]"
    by (simp add: endsWith_def)
  from findFuncDirs_units
    [of "[]" "Dir [(''a.func'', Dir [(''inner.func'', Dir []), (''locked'', BadDir)]),
                   (''api'', Dir [(''v1'', Dir [(''x.func'', Dir [])])]),
                   (''notes.func'', File 1 Unparseable)]"
        "[([''a.func''], Dir [(''inner.func'', Dir []), (''locked'', BadDir)]),
          ([''api'', ''v1'', ''x.func''], Dir [])]"] f
  show ?thesis
    by blast
qed

end
